theory Spec2Isabelle
  imports
    Main
    "HOL-Library.AList"
    "HOL-Library.Char_ord"
    "HOL-Library.List_Lexorder"
    "HOL-Library.Multiset"
begin

section \<open>Python values used by \<open>rs_view_sync_raw_data.py\<close>\<close>

text \<open>
  The exceptions the script's own statements and the library calls it makes can raise
  (all of them subclasses of Python's \<open>Exception\<close>). \<open>OtherError\<close> stands for the
  errors of the external collaborators (json, numpy, OpenCV) with their message.
\<close>

datatype exc =
    FileNotFoundError
  | NotADirectoryError
  | IndexError
  | KeyError
  | ValueError
  | StopIteration
  | OtherError string

text \<open>
  What can propagate out of a statement: an \<open>Exception\<close>, or the \<open>SystemExit\<close> that
  \<open>exit(n)\<close> raises, which is a \<open>BaseException\<close> but not an \<open>Exception\<close>.
\<close>

datatype raised = Exception exc | SystemExit int

fun bindE :: "'e + 'a \<Rightarrow> ('a \<Rightarrow> 'e + 'b) \<Rightarrow> 'e + 'b" where
  "bindE (Inl e) f = Inl e"
| "bindE (Inr x) f = f x"

text \<open>A \<open>for\<close> loop that updates local state and stops at the first exception.\<close>

fun foldE :: "('a \<Rightarrow> 's \<Rightarrow> 'e + 's) \<Rightarrow> 'a list \<Rightarrow> 's \<Rightarrow> 'e + 's" where
  "foldE f [] s = Inr s"
| "foldE f (x # xs) s = (case f x s of Inl e \<Rightarrow> Inl e | Inr s' \<Rightarrow> foldE f xs s')"

text \<open>A \<open>for\<close> loop (or list comprehension) that collects one value per element.\<close>

fun mapE :: "('a \<Rightarrow> 'e + 'b) \<Rightarrow> 'a list \<Rightarrow> 'e + 'b list" where
  "mapE f [] = Inr []"
| "mapE f (x # xs) =
     (case f x of Inl e \<Rightarrow> Inl e
      | Inr y \<Rightarrow> (case mapE f xs of Inl e \<Rightarrow> Inl e | Inr ys \<Rightarrow> Inr (y # ys)))"

text \<open>
  A \<open>dict\<close> is an association list in insertion order with distinct keys;
  \<open>d[k] = v\<close> is \<open>AList.update k v d\<close>, which overwrites an existing key in place
  and appends a new one, as Python does. \<open>d[k]\<close> raises \<open>KeyError\<close> on a missing key.
\<close>

definition py_getitem :: "('k \<times> 'v) list \<Rightarrow> 'k \<Rightarrow> exc + 'v" where
  "py_getitem d k = (case map_of d k of None \<Rightarrow> Inl KeyError | Some v \<Rightarrow> Inr v)"

text \<open>\<open>xs[i]\<close> for a non-negative index.\<close>

definition py_index :: "'a list \<Rightarrow> nat \<Rightarrow> exc + 'a" where
  "py_index xs i = (if i < length xs then Inr (xs ! i) else Inl IndexError)"

text \<open>\<open>max(xs)\<close>: \<open>ValueError\<close> on an empty list.\<close>

fun py_max :: "int list \<Rightarrow> exc + int" where
  "py_max [] = Inl ValueError"
| "py_max (x # xs) = Inr (fold (\<lambda>y m. if y > m then y else m) xs x)"

text \<open>
  \<open>zip(*cols)\<close>: one tuple per position, until the first exhausted column; no column,
  no tuple.
\<close>

function py_zip :: "'a list list \<Rightarrow> 'a list list" where
  "py_zip cols =
     (if cols = [] \<or> [] \<in> set cols then [] else map hd cols # py_zip (map tl cols))"
  by pat_completeness auto
termination
proof (relation "measure (\<lambda>cols. length (hd cols))")
  show "wf (measure (\<lambda>cols. length (hd cols)))" by simp
next
  fix cols :: "'a list list"
  assume a: "\<not> (cols = [] \<or> [] \<in> set cols)"
  then obtain y ys where c: "cols = y # ys" and y: "y \<noteq> []"
    by (cases cols) auto
  from y have "length (tl y) < length y"
    by (cases y) auto
  with c show "(map tl cols, cols) \<in> measure (\<lambda>cols. length (hd cols))"
    by simp
qed

declare py_zip.simps [simp del]

subsection \<open>Paths and file names\<close>

text \<open>\<open>os.path.join(a, *p)\<close> of \<open>posixpath\<close>.\<close>

fun path_join :: "string \<Rightarrow> string list \<Rightarrow> string" where
  "path_join path [] = path"
| "path_join path (b # p) =
     path_join
       (if b \<noteq> [] \<and> hd b = CHR ''/'' then b
        else if path = [] \<or> last path = CHR ''/'' then path @ b
        else path @ ''/'' @ b) p"

text \<open>\<open>s.split('/')[-1]\<close> and \<open>s.split('.')[0]\<close>.\<close>

definition last_component :: "string \<Rightarrow> string" where
  "last_component s = rev (takeWhile (\<lambda>c. c \<noteq> CHR ''/'') (rev s))"

definition first_field :: "string \<Rightarrow> string" where
  "first_field s = takeWhile (\<lambda>c. c \<noteq> CHR ''.'') s"

text \<open>
  \<open>int(s)\<close> on an ASCII string: surrounding whitespace is stripped, one sign is allowed,
  then decimal digits, single underscores allowed between digits; anything else raises
  \<open>ValueError\<close>. (Python also accepts the decimal digits of other scripts; names with
  such characters are outside this model.)
\<close>

definition is_space :: "char \<Rightarrow> bool" where
  "is_space c = (let n = (of_char c :: nat) in (9 \<le> n \<and> n \<le> 13) \<or> (28 \<le> n \<and> n \<le> 32))"

definition digit_of :: "char \<Rightarrow> nat option" where
  "digit_of c = (let n = (of_char c :: nat) in if 48 \<le> n \<and> n \<le> 57 then Some (n - 48) else None)"

fun py_digits :: "nat \<Rightarrow> string \<Rightarrow> nat option" where
  "py_digits acc [] = None"
| "py_digits acc [c] = (case digit_of c of None \<Rightarrow> None | Some d \<Rightarrow> Some (acc * 10 + d))"
| "py_digits acc (c # c' # cs) =
     (case digit_of c of
        None \<Rightarrow> None
      | Some d \<Rightarrow>
          if c' = CHR ''_'' then py_digits (acc * 10 + d) cs
          else py_digits (acc * 10 + d) (c' # cs))"

definition py_strip :: "string \<Rightarrow> string" where
  "py_strip s = rev (dropWhile is_space (rev (dropWhile is_space s)))"

definition py_int :: "string \<Rightarrow> exc + int" where
  "py_int s =
     (case py_strip s of
        [] \<Rightarrow> Inl ValueError
      | c # cs \<Rightarrow>
          if c = CHR ''-'' then
            (case py_digits 0 cs of None \<Rightarrow> Inl ValueError | Some n \<Rightarrow> Inr (- int n))
          else if c = CHR ''+'' then
            (case py_digits 0 cs of None \<Rightarrow> Inl ValueError | Some n \<Rightarrow> Inr (int n))
          else
            (case py_digits 0 (c # cs) of None \<Rightarrow> Inl ValueError | Some n \<Rightarrow> Inr (int n)))"

text \<open>The timestamp of a payload file: lines 63-64 and 66-67.\<close>

definition file_ts :: "string \<Rightarrow> exc + int" where
  "file_ts f = py_int (first_field (last_component f))"

section \<open>The stream index\<close>

text \<open>
  The file system as the script sees it: \<open>os.listdir\<close>, from a path to the names in
  that directory (in the arbitrary order the operating system lists them) or to the
  \<open>OSError\<close> it raises.
\<close>

type_synonym listdir = "string \<Rightarrow> exc + string list"

definition PATH :: string where
  "PATH = ''/tmp/testing''"

text \<open>\<open>get_calib\<close>, lines 13-21.\<close>

definition get_calib :: "listdir \<Rightarrow> string \<Rightarrow> exc + (string \<times> string) list" where
  "get_calib listdir base_path =
     bindE (listdir base_path) (\<lambda>devices.
       foldE (\<lambda>device path.
           bindE (listdir (path_join base_path [device])) (\<lambda>tss.
             foldE (\<lambda>ts path.
                 let calib_path = path_join base_path [device, ts, ''calib''] in
                 bindE (listdir calib_path) (\<lambda>filenames.
                   foldE (\<lambda>filename path.
                       Inr (AList.update device (path_join calib_path [filename]) path))
                     (sort filenames) path))
               (sort tss) path))
         (sort devices) [])"

text \<open>\<open>get_filepaths\<close>, lines 24-33. \<open>out[device].append(x)\<close> reads \<open>out[device]\<close>.\<close>

definition dict_append :: "string \<Rightarrow> string \<Rightarrow> (string \<times> string list) list \<Rightarrow>
    exc + (string \<times> string list) list" where
  "dict_append device x out =
     bindE (py_getitem out device) (\<lambda>l. Inr (AList.update device (l @ [x]) out))"

definition get_filepaths :: "listdir \<Rightarrow> string \<Rightarrow> string \<Rightarrow> exc + (string \<times> string list) list" where
  "get_filepaths listdir base_path sensor =
     bindE (listdir base_path) (\<lambda>devices.
       foldE (\<lambda>device out.
           let out = AList.update device [] out in
           bindE (listdir (path_join base_path [device])) (\<lambda>tss.
             foldE (\<lambda>ts out.
                 let sensor_path = path_join base_path [device, ts, sensor] in
                 bindE (listdir sensor_path) (\<lambda>filenames.
                   foldE (\<lambda>filename out.
                       dict_append device (path_join sensor_path [filename]) out)
                     (sort filenames) out))
               (sort tss) out))
         (sort devices) [])"

text \<open>
  A per-device dictionary from timestamp to \<open>[calib_file, payload_file]\<close>, and the
  dictionary of those per device.
\<close>

type_synonym frame_dict = "(int \<times> string \<times> string) list"
type_synonym dev_dict = "(string \<times> frame_dict) list"

text \<open>\<open>d[dev][ts] = [calib_file, file]\<close>, lines 69-70.\<close>

definition dict_store :: "dev_dict \<Rightarrow> string \<Rightarrow> int \<Rightarrow> string \<times> string \<Rightarrow> exc + dev_dict" where
  "dict_store d dev ts v =
     bindE (py_getitem d dev) (\<lambda>inner. Inr (AList.update dev (AList.update ts v inner) d))"

text \<open>The body of the inner loop, lines 58-70, for one tuple and one \<open>i\<close>.\<close>

definition index_entry :: "nat \<Rightarrow> string list \<Rightarrow> nat \<Rightarrow> dev_dict \<times> dev_dict \<Rightarrow>
    exc + dev_dict \<times> dev_dict" where
  "index_entry num_dev data_tuple i dicts =
     (case dicts of (color_dict, depth_dict) \<Rightarrow>
      bindE (py_index data_tuple (0 * num_dev + i)) (\<lambda>dev.
      bindE (py_index data_tuple (1 * num_dev + i)) (\<lambda>calib_file.
      bindE (py_index data_tuple (2 * num_dev + i)) (\<lambda>color_file.
      bindE (py_index data_tuple (3 * num_dev + i)) (\<lambda>depth_file.
      bindE (file_ts color_file) (\<lambda>color_ts.
      bindE (file_ts depth_file) (\<lambda>depth_ts.
      bindE (dict_store color_dict dev color_ts (calib_file, color_file)) (\<lambda>color_dict.
      bindE (dict_store depth_dict dev depth_ts (calib_file, depth_file)) (\<lambda>depth_dict.
      Inr (color_dict, depth_dict))))))))))"

text \<open>
  Lines 41-72 of \<open>get_filepaths_with_timestamps\<close>: from the three dictionaries of
  paths to the two timestamp-keyed dictionaries, \<open>num_data\<close> and \<open>num_dev\<close>.
\<close>

definition index_files :: "(string \<times> string list) list \<Rightarrow> (string \<times> string list) list \<Rightarrow>
    (string \<times> string) list \<Rightarrow> exc + dev_dict \<times> dev_dict \<times> nat \<times> nat" where
  "index_files dev_color_files dev_depth_files dev_calib_file =
     bindE (py_index (map snd dev_color_files) 0) (\<lambda>first_color.
       let num_data = length first_color;
           num_dev = length (map fst dev_calib_file);
           devices = map (\<lambda>i. replicate num_data i) (map fst dev_calib_file);
           calib_files = map (\<lambda>i. replicate num_data i) (map snd dev_calib_file);
           color_dict = map (\<lambda>dev. (dev, [])) (map fst dev_calib_file);
           depth_dict = map (\<lambda>dev. (dev, [])) (map fst dev_calib_file)
       in
       bindE (foldE (\<lambda>data_tuple. foldE (index_entry num_dev data_tuple) [0..<num_dev])
                (py_zip (devices @ calib_files @ map snd dev_color_files @ map snd dev_depth_files))
                (color_dict, depth_dict))
         (\<lambda>(color_dict, depth_dict). Inr (color_dict, depth_dict, num_data, num_dev)))"

text \<open>\<open>get_filepaths_with_timestamps\<close>, lines 36-72.\<close>

definition get_filepaths_with_timestamps :: "listdir \<Rightarrow> exc + dev_dict \<times> dev_dict \<times> nat \<times> nat" where
  "get_filepaths_with_timestamps listdir =
     bindE (get_filepaths listdir PATH ''color'') (\<lambda>dev_color_files.
     bindE (get_filepaths listdir PATH ''depth'') (\<lambda>dev_depth_files.
     bindE (get_calib listdir PATH) (\<lambda>dev_calib_file.
     index_files dev_color_files dev_depth_files dev_calib_file)))"

section \<open>The synchronisation loop\<close>

text \<open>The variables of \<open>__main__\<close> that the loop reads and writes (lines 77-88).\<close>

record session =
  color_dict :: dev_dict
  depth_dict :: dev_dict
  dev_color_ts :: "(string \<times> int list) list"
  dev_depth_ts :: "(string \<times> int list) list"
  dev_list :: "string list"
  counter_color :: "nat list"
  counter_depth :: "nat list"
  ts_max :: int

text \<open>Lines 77-88: the state before the first iteration.\<close>

definition start_session :: "dev_dict \<times> dev_dict \<times> nat \<times> nat \<Rightarrow> exc + session" where
  "start_session r =
     (case r of (color_dict', depth_dict', num_data, num_dev) \<Rightarrow>
      bindE (mapE (\<lambda>i. py_index (map fst i) 0) (map snd color_dict')) (\<lambda>firsts_color.
      bindE (py_max firsts_color) (\<lambda>ts_color_max.
      bindE (mapE (\<lambda>i. py_index (map fst i) 0) (map snd depth_dict')) (\<lambda>firsts_depth.
      bindE (py_max firsts_depth) (\<lambda>ts_depth_max.
      bindE (py_max [ts_color_max, ts_depth_max]) (\<lambda>ts_max'.
      Inr \<lparr> color_dict = color_dict', depth_dict = depth_dict',
            dev_color_ts = map (\<lambda>(k, v). (k, map fst v)) color_dict',
            dev_depth_ts = map (\<lambda>(k, v). (k, map fst v)) depth_dict',
            dev_list = map fst color_dict',
            counter_color = replicate num_dev 0,
            counter_depth = replicate num_dev 0,
            ts_max = ts_max' \<rparr>))))))"

text \<open>
  \<open>next(x for x in enumerate(seq) if x[1] >= ts_max)\<close>: the first pair of position and
  timestamp at or after the watermark, \<open>StopIteration\<close> when there is none.
\<close>

fun first_ge :: "nat \<Rightarrow> int list \<Rightarrow> int \<Rightarrow> exc + nat \<times> int" where
  "first_ge i [] w = Inl StopIteration"
| "first_ge i (x # xs) w = (if x \<ge> w then Inr (i, x) else first_ge (Suc i) xs w)"

text \<open>Lines 96-100 (and 102-106): the scan of one stream from its counter.\<close>

definition scan :: "(string \<times> int list) list \<Rightarrow> nat list \<Rightarrow> nat \<Rightarrow> string \<Rightarrow> int \<Rightarrow>
    exc + nat \<times> int" where
  "scan dev_ts counter idx dev w =
     bindE (py_getitem dev_ts dev) (\<lambda>seq.
     bindE (py_index counter idx) (\<lambda>c.
     first_ge 0 (drop c seq) w))"

text \<open>Lines 95-107: one device's turn in the alignment.\<close>

definition align_dev :: "session \<Rightarrow> nat \<times> string \<Rightarrow> int list \<times> int list \<Rightarrow>
    exc + int list \<times> int list" where
  "align_dev s p tmp =
     (case p of (idx, dev) \<Rightarrow> case tmp of (tmp_color_ts_list, tmp_depth_ts_list) \<Rightarrow>
      bindE (scan (dev_color_ts s) (counter_color s) idx dev (ts_max s)) (\<lambda>(ts_idx, ts).
      let tmp_color_ts_list = tmp_color_ts_list @ [ts] in
      bindE (scan (dev_depth_ts s) (counter_depth s) idx dev (ts_max s)) (\<lambda>(ts_idx, ts).
      let tmp_depth_ts_list = tmp_depth_ts_list @ [ts] in
      Inr (tmp_color_ts_list, tmp_depth_ts_list))))"

text \<open>
  Lines 93-108: the alignment step. It returns the timestamps chosen per device for
  colour and for depth, and the state in which \<open>ts_max\<close> has its new value; the
  counters are not assigned anywhere in the loop.
\<close>

definition align :: "session \<Rightarrow> exc + (int list \<times> int list) \<times> session" where
  "align s =
     bindE (foldE (align_dev s) (enumerate 0 (dev_list s)) ([], [])) (\<lambda>(tmp_color_ts_list, tmp_depth_ts_list).
     bindE (py_max (tmp_color_ts_list @ tmp_depth_ts_list)) (\<lambda>m.
     Inr ((tmp_color_ts_list, tmp_depth_ts_list), s\<lparr>ts_max := m\<rparr>)))"

text \<open>
  Lines 110-155: the compositor. Reading and decoding the payloads and showing the
  picture are the work of external collaborators, taken as parameters: \<open>decode\<close> gets
  the calibration file, the two payload files and the two timestamps of one device,
  \<open>display\<close> the decoded pictures of all devices.
\<close>

record 'img collaborators =
  decode :: "string \<Rightarrow> string \<Rightarrow> string \<Rightarrow> int \<Rightarrow> int \<Rightarrow> exc + 'img"
  display :: "'img list \<Rightarrow> exc + unit"

definition compose :: "'img collaborators \<Rightarrow> session \<Rightarrow> int list \<times> int list \<Rightarrow> exc + unit" where
  "compose io s tmp =
     (case tmp of (tmp_color_ts_list, tmp_depth_ts_list) \<Rightarrow>
      bindE (mapE (\<lambda>(i, dev).
          bindE (py_getitem (color_dict s) dev) (\<lambda>colors.
          bindE (py_index tmp_color_ts_list i) (\<lambda>color_ts.
          bindE (py_getitem colors color_ts) (\<lambda>(calib_file, color_file).
          bindE (py_getitem (depth_dict s) dev) (\<lambda>depths.
          bindE (py_index tmp_depth_ts_list i) (\<lambda>depth_ts.
          bindE (py_getitem depths depth_ts) (\<lambda>(calib_file', depth_file).
          decode io calib_file color_file depth_file color_ts depth_ts)))))))
        (enumerate 0 (dev_list s)))
      (display io))"

text \<open>
  One frame bundle of the trace: the watermark the scan used, the timestamps chosen
  per device, and the watermark assigned at line 108.
\<close>

record frame_bundle =
  watermark :: int
  color_sel :: "int list"
  depth_sel :: "int list"
  new_watermark :: int

text \<open>
  The \<open>while True\<close> loop, lines 91-155, run for at most \<open>n\<close> iterations: the bundles
  aligned so far, the state reached, and the exception that ended the loop
  (\<open>None\<close> while it is still running).
\<close>

fun session_loop :: "'img collaborators \<Rightarrow> nat \<Rightarrow> session \<Rightarrow> frame_bundle list \<times> session \<times> exc option" where
  "session_loop io 0 s = ([], s, None)"
| "session_loop io (Suc n) s =
     (case align s of
        Inl e \<Rightarrow> ([], s, Some e)
      | Inr (tmp, s') \<Rightarrow>
          let b = \<lparr> watermark = ts_max s, color_sel = fst tmp, depth_sel = snd tmp,
                    new_watermark = ts_max s' \<rparr> in
          (case compose io s' tmp of
             Inl e \<Rightarrow> ([b], s', Some e)
           | Inr u \<Rightarrow>
               (case session_loop io n s' of (bs, s'', r) \<Rightarrow> (b # bs, s'', r))))"

subsection \<open>The \<open>try\<close> statement around the loop\<close>

text \<open>
  A statement either completes or raises; what it printed is kept beside.
  \<open>exit(n)\<close> raises \<open>SystemExit(n)\<close>.
\<close>

datatype completion = Completed | Raised raised

definition py_exit :: "int \<Rightarrow> completion" where
  "py_exit n = Raised (SystemExit n)"

text \<open>
  \<open>try: body  except Exception as e: handler(e)  finally: final\<close>. The handler runs
  for an \<open>Exception\<close> only; the \<open>finally\<close> block runs in every case, and when it
  raises, its exception replaces the one in flight.
\<close>

definition try_except_finally :: "completion \<Rightarrow> (exc \<Rightarrow> exc list \<times> completion) \<Rightarrow> completion \<Rightarrow>
    exc list \<times> completion" where
  "try_except_finally body handler final =
     (let (printed, after_handler) =
            (case body of
               Completed \<Rightarrow> ([], Completed)
             | Raised (Exception e) \<Rightarrow> handler e
             | Raised (SystemExit n) \<Rightarrow> ([], Raised (SystemExit n)))
      in (printed, (case final of Completed \<Rightarrow> after_handler | Raised r \<Rightarrow> Raised r)))"

text \<open>
  The exit status of the interpreter: that of an uncaught \<open>SystemExit\<close>, 1 for any
  other uncaught exception, 0 at the end of the script.
\<close>

fun exit_status :: "completion \<Rightarrow> int" where
  "exit_status Completed = 0"
| "exit_status (Raised (SystemExit n)) = n"
| "exit_status (Raised (Exception e)) = 1"

text \<open>
  Lines 90-163 for a loop that raised \<open>e\<close>: \<open>print(e); exit(1)\<close> in the handler,
  \<open>exit(0)\<close> in the \<open>finally\<close> block. The result is what was printed and the exit status.
\<close>

definition guarded :: "exc \<Rightarrow> exc list \<times> int" where
  "guarded e =
     (case try_except_finally (Raised (Exception e)) (\<lambda>e. ([e], py_exit 1)) (py_exit 0) of
        (printed, c) \<Rightarrow> (printed, exit_status c))"

text \<open>
  The script from line 90 on, watched for \<open>n\<close> iterations: \<open>None\<close> while the loop is
  still running, otherwise what the script printed and its exit status.
\<close>

definition main_loop :: "'img collaborators \<Rightarrow> nat \<Rightarrow> session \<Rightarrow> (exc list \<times> int) option" where
  "main_loop io n s =
     (case session_loop io n s of
        (bs, s', None) \<Rightarrow> None
      | (bs, s', Some e) \<Rightarrow> Some (guarded e))"

text \<open>The whole script up to the loop: discovery, index, initial state.\<close>

definition main_start :: "listdir \<Rightarrow> exc + session" where
  "main_start listdir = bindE (get_filepaths_with_timestamps listdir) start_session"

section \<open>Auxiliary definitions\<close>

text \<open>
  A bundle \<open>b\<close> is one the alignment step produces from the streams of \<open>s\<close>: scanning
  with the watermark of \<open>b\<close> gives its selections and its new watermark.
\<close>

definition produced :: "session \<Rightarrow> frame_bundle \<Rightarrow> bool" where
  "produced s b \<longleftrightarrow>
     align (s\<lparr>ts_max := watermark b\<rparr>) =
       Inr ((color_sel b, depth_sel b), s\<lparr>ts_max := new_watermark b\<rparr>)"

text \<open>
  The paths that the two inner loops of \<open>get_filepaths\<close> (lines 29-32) and of
  \<open>get_calib\<close> (lines 17-20) visit for one session and for one device: the sessions in
  the order of their sorted names, the files of a session in the order of their
  sorted names.
\<close>

definition session_files :: "listdir \<Rightarrow> string \<Rightarrow> string \<Rightarrow> string \<Rightarrow> string \<Rightarrow> exc + string list" where
  "session_files listdir base_path sensor device ts =
     bindE (listdir (path_join base_path [device, ts, sensor])) (\<lambda>filenames.
       Inr (map (\<lambda>filename. path_join (path_join base_path [device, ts, sensor]) [filename])
              (sort filenames)))"

definition device_files :: "listdir \<Rightarrow> string \<Rightarrow> string \<Rightarrow> string \<Rightarrow> exc + string list" where
  "device_files listdir base_path sensor device =
     bindE (listdir (path_join base_path [device])) (\<lambda>tss.
     bindE (mapE (session_files listdir base_path sensor device) (sort tss)) (\<lambda>ls.
       Inr (concat ls)))"










subsection \<open>Example inputs\<close>

text \<open>A directory tree given as a table from paths to listings; any other path is missing.\<close>

definition listdir_of :: "(string \<times> string list) list \<Rightarrow> listdir" where
  "listdir_of t p = (case map_of t p of None \<Rightarrow> Inl FileNotFoundError | Some ns \<Rightarrow> Inr ns)"

text \<open>Collaborators that decode and display every bundle without error.\<close>

definition io_ok :: "unit collaborators" where
  "io_ok = \<lparr> decode = (\<lambda>calib color depth color_ts depth_ts. Inr ()), display = (\<lambda>imgs. Inr ()) \<rparr>"

text \<open>
  Two devices: A with colour 100, 200, 300 and depth 105, 205, 305; B with colour
  150, 250 and depth 155, 255.
\<close>

definition fs_scenario :: listdir where
  "fs_scenario = listdir_of [
     (''/tmp/testing'', [''B'', ''A'']),
     (''/tmp/testing/A'', [''s1'']),
     (''/tmp/testing/B'', [''s1'']),
     (''/tmp/testing/A/s1/color'', [''300.bin'', ''100.bin'', ''200.bin'']),
     (''/tmp/testing/A/s1/depth'', [''105.bin'', ''205.bin'', ''305.bin'']),
     (''/tmp/testing/A/s1/calib'', [''c.json'']),
     (''/tmp/testing/B/s1/color'', [''150.bin'', ''250.bin'']),
     (''/tmp/testing/B/s1/depth'', [''155.bin'', ''255.bin'']),
     (''/tmp/testing/B/s1/calib'', [''c.json''])]"

definition scenario_index :: "dev_dict \<times> dev_dict \<times> nat \<times> nat" where
  "scenario_index =
     ([(''A'', [(100, ''/tmp/testing/A/s1/calib/c.json'', ''/tmp/testing/A/s1/color/100.bin''),
               (200, ''/tmp/testing/A/s1/calib/c.json'', ''/tmp/testing/A/s1/color/200.bin'')]),
       (''B'', [(150, ''/tmp/testing/B/s1/calib/c.json'', ''/tmp/testing/B/s1/color/150.bin''),
               (250, ''/tmp/testing/B/s1/calib/c.json'', ''/tmp/testing/B/s1/color/250.bin'')])],
      [(''A'', [(105, ''/tmp/testing/A/s1/calib/c.json'', ''/tmp/testing/A/s1/depth/105.bin''),
               (205, ''/tmp/testing/A/s1/calib/c.json'', ''/tmp/testing/A/s1/depth/205.bin'')]),
       (''B'', [(155, ''/tmp/testing/B/s1/calib/c.json'', ''/tmp/testing/B/s1/depth/155.bin''),
               (255, ''/tmp/testing/B/s1/calib/c.json'', ''/tmp/testing/B/s1/depth/255.bin'')])],
      3, 2)"

definition scenario_session :: session where
  "scenario_session =
     \<lparr> color_dict = fst scenario_index, depth_dict = fst (snd scenario_index),
       dev_color_ts = [(''A'', [100, 200]), (''B'', [150, 250])],
       dev_depth_ts = [(''A'', [105, 205]), (''B'', [155, 255])],
       dev_list = [''A'', ''B''], counter_color = [0, 0], counter_depth = [0, 0],
       ts_max = 155 \<rparr>"

definition scenario_bundle :: frame_bundle where
  "scenario_bundle =
     \<lparr> watermark = 155, color_sel = [200, 250], depth_sel = [205, 155], new_watermark = 250 \<rparr>"




text \<open>One device with colour files 100, 200 and depth files 100, 200.\<close>

definition fs_repeat :: listdir where
  "fs_repeat = listdir_of [
     (''/tmp/testing'', [''A'']),
     (''/tmp/testing/A'', [''s1'']),
     (''/tmp/testing/A/s1/color'', [''100.bin'', ''200.bin'']),
     (''/tmp/testing/A/s1/depth'', [''100.bin'', ''200.bin'']),
     (''/tmp/testing/A/s1/calib'', [''c.json''])]"

definition repeat_session :: session where
  "repeat_session =
     \<lparr> color_dict =
         [(''A'', [(100, ''/tmp/testing/A/s1/calib/c.json'', ''/tmp/testing/A/s1/color/100.bin''),
                  (200, ''/tmp/testing/A/s1/calib/c.json'', ''/tmp/testing/A/s1/color/200.bin'')])],
       depth_dict =
         [(''A'', [(100, ''/tmp/testing/A/s1/calib/c.json'', ''/tmp/testing/A/s1/depth/100.bin''),
                  (200, ''/tmp/testing/A/s1/calib/c.json'', ''/tmp/testing/A/s1/depth/200.bin'')])],
       dev_color_ts = [(''A'', [100, 200])],
       dev_depth_ts = [(''A'', [100, 200])],
       dev_list = [''A''], counter_color = [0], counter_depth = [0],
       ts_max = 100 \<rparr>"

text \<open>One device with a single colour file 100 and a single depth file 100.\<close>

definition fs_single :: listdir where
  "fs_single = listdir_of [
     (''/tmp/testing'', [''A'']),
     (''/tmp/testing/A'', [''s1'']),
     (''/tmp/testing/A/s1/color'', [''100.bin'']),
     (''/tmp/testing/A/s1/depth'', [''100.bin'']),
     (''/tmp/testing/A/s1/calib'', [''c.json''])]"

definition single_session :: session where
  "single_session =
     \<lparr> color_dict =
         [(''A'', [(100, ''/tmp/testing/A/s1/calib/c.json'', ''/tmp/testing/A/s1/color/100.bin'')])],
       depth_dict =
         [(''A'', [(100, ''/tmp/testing/A/s1/calib/c.json'', ''/tmp/testing/A/s1/depth/100.bin'')])],
       dev_color_ts = [(''A'', [100])],
       dev_depth_ts = [(''A'', [100])],
       dev_list = [''A''], counter_color = [0], counter_depth = [0],
       ts_max = 100 \<rparr>"

text \<open>The bundle that selects timestamp 100 for colour and depth under watermark 100.\<close>

definition bundle_100 :: frame_bundle where
  "bundle_100 = \<lparr> watermark = 100, color_sel = [100], depth_sel = [100], new_watermark = 100 \<rparr>"

text \<open>One device with two recording sessions, each with its own calibration file.\<close>

definition fs_two_calib :: listdir where
  "fs_two_calib = listdir_of [
     (''/tmp/testing'', [''A'']),
     (''/tmp/testing/A'', [''s1'', ''s2'']),
     (''/tmp/testing/A/s1/color'', [''100.bin'']),
     (''/tmp/testing/A/s1/depth'', [''100.bin'']),
     (''/tmp/testing/A/s1/calib'', [''c1.json'']),
     (''/tmp/testing/A/s2/color'', [''200.bin'']),
     (''/tmp/testing/A/s2/depth'', [''200.bin'']),
     (''/tmp/testing/A/s2/calib'', [''c2.json''])]"

text \<open>One device whose colour and depth files are 9 and 10.\<close>

definition fs_digits :: listdir where
  "fs_digits = listdir_of [
     (''/tmp/testing'', [''A'']),
     (''/tmp/testing/A'', [''s1'']),
     (''/tmp/testing/A/s1/color'', [''9.bin'', ''10.bin'']),
     (''/tmp/testing/A/s1/depth'', [''9.bin'', ''10.bin'']),
     (''/tmp/testing/A/s1/calib'', [''c.json''])]"

text \<open>The three dictionaries of paths that the listing yields for \<open>fs_scenario\<close>.\<close>

definition scenario_color_files :: "(string \<times> string list) list" where
  "scenario_color_files =
     [(''A'', [''/tmp/testing/A/s1/color/100.bin'', ''/tmp/testing/A/s1/color/200.bin'',
              ''/tmp/testing/A/s1/color/300.bin'']),
      (''B'', [''/tmp/testing/B/s1/color/150.bin'', ''/tmp/testing/B/s1/color/250.bin''])]"

definition scenario_depth_files :: "(string \<times> string list) list" where
  "scenario_depth_files =
     [(''A'', [''/tmp/testing/A/s1/depth/105.bin'', ''/tmp/testing/A/s1/depth/205.bin'',
              ''/tmp/testing/A/s1/depth/305.bin'']),
      (''B'', [''/tmp/testing/B/s1/depth/155.bin'', ''/tmp/testing/B/s1/depth/255.bin''])]"

definition scenario_calib :: "(string \<times> string) list" where
  "scenario_calib =
     [(''A'', ''/tmp/testing/A/s1/calib/c.json''), (''B'', ''/tmp/testing/B/s1/calib/c.json'')]"



section \<open>Auxiliary facts\<close>

subsection \<open>Exceptions and maxima\<close>

lemma bindE_Inr_iff: "bindE m f = Inr y \<longleftrightarrow> (\<exists>x. m = Inr x \<and> f x = Inr y)"
  by (cases m) auto

lemma py_max_Inr: "py_max xs = Inr m \<Longrightarrow> xs \<noteq> [] \<and> m = Max (set xs)"
proof (cases xs)
  case Nil
  assume "py_max xs = Inr m"
  with Nil show ?thesis by simp
next
  case (Cons x ys)
  assume a: "py_max xs = Inr m"
  have "(\<lambda>y m. if y > m then y else m) = (max :: int \<Rightarrow> int \<Rightarrow> int)"
    by (intro ext) (simp add: max_def)
  with a Cons have "m = fold max ys x" by simp
  with Cons show ?thesis using Max.set_eq_fold[of x ys] by simp
qed

subsection \<open>The alignment step\<close>

lemma first_ge_Inr:
  "first_ge i xs w = Inr (p, t) \<Longrightarrow>
     \<exists>pre post. xs = pre @ t # post \<and> (\<forall>x\<in>set pre. x < w) \<and> w \<le> t \<and> p = i + length pre"
proof (induction xs arbitrary: i)
  case Nil
  then show ?case by simp
next
  case (Cons x xs)
  show ?case
  proof (cases "w \<le> x")
    case True
    with Cons.prems have "p = i" "t = x" by auto
    with True show ?thesis by (intro exI[of _ "[]"] exI[of _ xs]) auto
  next
    case False
    with Cons.prems have "first_ge (Suc i) xs w = Inr (p, t)" by simp
    from Cons.IH[OF this] obtain pre post where
      "xs = pre @ t # post" "\<forall>x\<in>set pre. x < w" "w \<le> t" "p = Suc i + length pre" by blast
    with False show ?thesis
      by (intro exI[of _ "x # pre"] exI[of _ post]) auto
  qed
qed


lemma align_fold:
  "foldE (align_dev s) (enumerate k devs) (tc, td) = Inr (tc', td') \<Longrightarrow>
     \<exists>cs ds. tc' = tc @ cs \<and> td' = td @ ds \<and> length cs = length devs \<and> length ds = length devs \<and>
       (\<forall>j<length devs.
          (\<exists>p. scan (dev_color_ts s) (counter_color s) (k + j) (devs ! j) (ts_max s) = Inr (p, cs ! j)) \<and>
          (\<exists>p. scan (dev_depth_ts s) (counter_depth s) (k + j) (devs ! j) (ts_max s) = Inr (p, ds ! j)))"
proof (induction devs arbitrary: k tc td)
  case Nil
  then show ?case by simp
next
  case (Cons d devs)
  from Cons.prems obtain tc1 td1 where
    step: "align_dev s (k, d) (tc, td) = Inr (tc1, td1)" and
    rest: "foldE (align_dev s) (enumerate (Suc k) devs) (tc1, td1) = Inr (tc', td')"
    by (auto split: sum.splits)
  from step obtain p1 t1 p2 t2 where
    c: "scan (dev_color_ts s) (counter_color s) k d (ts_max s) = Inr (p1, t1)" and
    d: "scan (dev_depth_ts s) (counter_depth s) k d (ts_max s) = Inr (p2, t2)" and
    eq: "tc1 = tc @ [t1]" "td1 = td @ [t2]"
    by (auto simp: align_dev_def bindE_Inr_iff Let_def)
  from Cons.IH[OF rest] obtain cs ds where
    ih: "tc' = tc1 @ cs" "td' = td1 @ ds" "length cs = length devs" "length ds = length devs"
      "\<forall>j<length devs.
          (\<exists>p. scan (dev_color_ts s) (counter_color s) (Suc k + j) (devs ! j) (ts_max s) = Inr (p, cs ! j)) \<and>
          (\<exists>p. scan (dev_depth_ts s) (counter_depth s) (Suc k + j) (devs ! j) (ts_max s) = Inr (p, ds ! j))"
    by blast
  have sel: "\<forall>j<length (d # devs).
          (\<exists>p. scan (dev_color_ts s) (counter_color s) (k + j) ((d # devs) ! j) (ts_max s) = Inr (p, (t1 # cs) ! j)) \<and>
          (\<exists>p. scan (dev_depth_ts s) (counter_depth s) (k + j) ((d # devs) ! j) (ts_max s) = Inr (p, (t2 # ds) ! j))"
  proof (intro allI impI)
    fix j assume "j < length (d # devs)"
    then show "(\<exists>p. scan (dev_color_ts s) (counter_color s) (k + j) ((d # devs) ! j) (ts_max s) = Inr (p, (t1 # cs) ! j)) \<and>
          (\<exists>p. scan (dev_depth_ts s) (counter_depth s) (k + j) ((d # devs) ! j) (ts_max s) = Inr (p, (t2 # ds) ! j))"
      using c d ih(5) by (cases j) auto
  qed
  have "tc' = tc @ (t1 # cs)" "td' = td @ (t2 # ds)"
    "length (t1 # cs) = length (d # devs)" "length (t2 # ds) = length (d # devs)"
    using ih eq by simp_all
  with sel show ?case by blast
qed

lemma align_Inr:
  assumes "align s = Inr ((cs, ds), s')"
  shows "s' = s\<lparr>ts_max := Max (set (cs @ ds))\<rparr>" "cs @ ds \<noteq> []"
    "length cs = length (dev_list s)" "length ds = length (dev_list s)"
    "\<forall>j<length (dev_list s).
       (\<exists>p. scan (dev_color_ts s) (counter_color s) j (dev_list s ! j) (ts_max s) = Inr (p, cs ! j)) \<and>
       (\<exists>p. scan (dev_depth_ts s) (counter_depth s) j (dev_list s ! j) (ts_max s) = Inr (p, ds ! j))"
proof -
  from assms obtain m where
    f: "foldE (align_dev s) (enumerate 0 (dev_list s)) ([], []) = Inr (cs, ds)" and
    m: "py_max (cs @ ds) = Inr m" and s': "s' = s\<lparr>ts_max := m\<rparr>"
    by (auto simp: align_def bindE_Inr_iff)
  from py_max_Inr[OF m] s' show "s' = s\<lparr>ts_max := Max (set (cs @ ds))\<rparr>" "cs @ ds \<noteq> []"
    by simp_all
  from align_fold[OF f] show "length cs = length (dev_list s)" "length ds = length (dev_list s)"
    "\<forall>j<length (dev_list s).
       (\<exists>p. scan (dev_color_ts s) (counter_color s) j (dev_list s ! j) (ts_max s) = Inr (p, cs ! j)) \<and>
       (\<exists>p. scan (dev_depth_ts s) (counter_depth s) j (dev_list s ! j) (ts_max s) = Inr (p, ds ! j))"
    by auto
qed

subsection \<open>The trace of a session\<close>

lemma align_frame: "align s = Inr (tmp, s') \<Longrightarrow> s' = s\<lparr>ts_max := ts_max s'\<rparr>"
  by (auto simp: align_def bindE_Inr_iff)

lemma session_loop_trace:
  "session_loop io n s = (bs, s', r) \<Longrightarrow>
     (\<forall>b\<in>set bs. produced s b) \<and>
     s' = s\<lparr>ts_max := ts_max s'\<rparr> \<and>
     ts_max s' = (if bs = [] then ts_max s else new_watermark (last bs)) \<and>
     (bs \<noteq> [] \<longrightarrow> watermark (hd bs) = ts_max s) \<and>
     (\<forall>i. Suc i < length bs \<longrightarrow> watermark (bs ! Suc i) = new_watermark (bs ! i))"
proof (induction n arbitrary: s bs s' r)
  case 0
  then show ?case by simp
next
  case (Suc n)
  show ?case
  proof (cases "align s")
    case (Inl e)
    with Suc.prems show ?thesis by simp
  next
    case (Inr a)
    obtain tmp s1 where a: "a = (tmp, s1)" by (cases a)
    define b where "b = \<lparr> watermark = ts_max s, color_sel = fst tmp, depth_sel = snd tmp,
                    new_watermark = ts_max s1 \<rparr>"
    from Inr a have al: "align s = Inr (tmp, s1)" by simp
    from align_frame[OF al] have s1: "s1 = s\<lparr>ts_max := ts_max s1\<rparr>" .
    have pb: "produced s b"
      using al s1 by (simp add: produced_def b_def)
    show ?thesis
    proof (cases "compose io s1 tmp")
      case (Inl e)
      with Suc.prems al have "bs = [b]" "s' = s1" by (auto simp: b_def)
      with pb s1 show ?thesis by (simp add: b_def)
    next
      case (Inr u)
      obtain bs1 s2 r1 where rest: "session_loop io n s1 = (bs1, s2, r1)"
        by (cases "session_loop io n s1") auto
      with Suc.prems al Inr have eq: "bs = b # bs1" "s' = s2" "r = r1"
        by (auto simp: b_def)
      from Suc.IH[OF rest] have
        ih1: "\<forall>b\<in>set bs1. produced s1 b" and
        ih2: "s2 = s1\<lparr>ts_max := ts_max s2\<rparr>" and
        ih3: "ts_max s2 = (if bs1 = [] then ts_max s1 else new_watermark (last bs1))" and
        ih4: "bs1 \<noteq> [] \<longrightarrow> watermark (hd bs1) = ts_max s1" and
        ih5: "\<forall>i. Suc i < length bs1 \<longrightarrow> watermark (bs1 ! Suc i) = new_watermark (bs1 ! i)"
        by blast+
      have upd: "\<And>w. s1\<lparr>ts_max := w\<rparr> = s\<lparr>ts_max := w\<rparr>"
        by (subst s1) simp
      from ih1 have p1: "\<forall>b\<in>set bs1. produced s b"
        by (simp add: produced_def upd)
      have p2: "s2 = s\<lparr>ts_max := ts_max s2\<rparr>"
        using ih2 upd by simp
      have p5: "\<forall>i. Suc i < length (b # bs1) \<longrightarrow>
          watermark ((b # bs1) ! Suc i) = new_watermark ((b # bs1) ! i)"
      proof (intro allI impI)
        fix i assume i: "Suc i < length (b # bs1)"
        show "watermark ((b # bs1) ! Suc i) = new_watermark ((b # bs1) ! i)"
        proof (cases i)
          case 0
          with i have "bs1 \<noteq> []" by auto
          with ih4 0 show ?thesis by (simp add: hd_conv_nth b_def)
        next
          case (Suc k)
          with i ih5 show ?thesis by simp
        qed
      qed
      from pb p1 p2 ih3 p5 eq show ?thesis
        by (simp add: b_def)
    qed
  qed
qed

lemma scan_ge: "scan dts cnt idx dev w = Inr (p, t) \<Longrightarrow> w \<le> t"
  by (auto simp: scan_def bindE_Inr_iff dest: first_ge_Inr)

lemma align_sel_ge:
  assumes "align s = Inr ((cs, ds), s')"
  shows "\<forall>t\<in>set (cs @ ds). ts_max s \<le> t"
proof -
  note al = align_Inr[OF assms]
  have "\<forall>t\<in>set cs. ts_max s \<le> t"
    using al(3,5) scan_ge by (fastforce simp: in_set_conv_nth)
  moreover have "\<forall>t\<in>set ds. ts_max s \<le> t"
    using al(4,5) scan_ge by (fastforce simp: in_set_conv_nth)
  ultimately show ?thesis by auto
qed

lemma produced_facts:
  assumes "produced s b"
  shows "new_watermark b = Max (set (color_sel b) \<union> set (depth_sel b))"
    "watermark b \<le> new_watermark b"
    "length (color_sel b) = length (dev_list s)"
    "length (depth_sel b) = length (dev_list s)"
proof -
  let ?s = "s\<lparr>ts_max := watermark b\<rparr>"
  from assms have al: "align ?s = Inr ((color_sel b, depth_sel b), s\<lparr>ts_max := new_watermark b\<rparr>)"
    by (simp add: produced_def)
  note f = align_Inr[OF al]
  from f(1) have "ts_max (s\<lparr>ts_max := new_watermark b\<rparr>) = ts_max (?s\<lparr>ts_max := Max (set (color_sel b @ depth_sel b))\<rparr>)"
    by simp
  then show m: "new_watermark b = Max (set (color_sel b) \<union> set (depth_sel b))"
    by simp
  from f(2) obtain t where t: "t \<in> set (color_sel b @ depth_sel b)"
    by (cases "color_sel b @ depth_sel b") auto
  with align_sel_ge[OF al] have "watermark b \<le> t" by auto
  moreover from t have "t \<le> Max (set (color_sel b) \<union> set (depth_sel b))"
    by (intro Max_ge) auto
  ultimately show "watermark b \<le> new_watermark b" using m by simp
  from f(3,4) show "length (color_sel b) = length (dev_list s)"
    "length (depth_sel b) = length (dev_list s)" by simp_all
qed




lemma scenario_index_eq: "get_filepaths_with_timestamps fs_scenario = Inr scenario_index"
  by code_simp

lemma scenario_start: "start_session scenario_index = Inr scenario_session"
  by code_simp

lemma scenario_run:
  "session_loop io_ok 3 scenario_session =
     ([scenario_bundle], scenario_session\<lparr>ts_max := 250\<rparr>, Some StopIteration)"
  by code_simp


lemma nth_is_last:
  assumes "k < length bs" "\<not> Suc k < length bs"
  shows "bs ! k = last bs" "bs \<noteq> []"
proof -
  from assms show ne: "bs \<noteq> []" by auto
  from assms have "k = length bs - 1" by arith
  with ne show "bs ! k = last bs"
    by (simp add: last_conv_nth)
qed






lemma counters_never_advance:
  assumes "session_loop io n s = (bs, s', r)"
  shows "counter_color s' = counter_color s" "counter_depth s' = counter_depth s"
    "dev_color_ts s' = dev_color_ts s" "dev_depth_ts s' = dev_depth_ts s"
proof -
  from session_loop_trace[OF assms] have "s' = s\<lparr>ts_max := ts_max s'\<rparr>" by blast
  then have "counter_color s' = counter_color (s\<lparr>ts_max := ts_max s'\<rparr>)"
    "counter_depth s' = counter_depth (s\<lparr>ts_max := ts_max s'\<rparr>)"
    "dev_color_ts s' = dev_color_ts (s\<lparr>ts_max := ts_max s'\<rparr>)"
    "dev_depth_ts s' = dev_depth_ts (s\<lparr>ts_max := ts_max s'\<rparr>)"
    by simp_all
  then show "counter_color s' = counter_color s" "counter_depth s' = counter_depth s"
    "dev_color_ts s' = dev_color_ts s" "dev_depth_ts s' = dev_depth_ts s"
    by simp_all
qed


lemma repeat_start: "main_start fs_repeat = Inr repeat_session"
  by code_simp

lemma single_start: "main_start fs_single = Inr single_session"
  by code_simp

lemma scenario_main_start: "main_start fs_scenario = Inr scenario_session"
  by (simp add: main_start_def scenario_index_eq scenario_start)

lemma single_align: "align single_session = Inr (([100], [100]), single_session)"
  by code_simp

lemma single_compose: "compose io_ok single_session ([100], [100]) = Inr ()"
  by code_simp

lemma single_loops: "session_loop io_ok n single_session = (replicate n bundle_100, single_session, None)"
proof (induction n)
  case 0
  show ?case by simp
next
  case (Suc n)
  have "ts_max single_session = 100" by (simp add: single_session_def)
  with Suc show ?case
    by (simp add: single_align single_compose bundle_100_def)
qed

subsection \<open>Listing the directories\<close>

declare path_join.simps [simp del]

lemma mapE_Inr: "mapE f xs = Inr ys \<longleftrightarrow> list_all2 (\<lambda>x y. f x = Inr y) xs ys"
proof (induction xs arbitrary: ys)
  case Nil
  show ?case by auto
next
  case (Cons x xs)
  show ?case
  proof (cases "f x")
    case (Inl e)
    then show ?thesis by (cases ys) auto
  next
    case fx: (Inr y)
    show ?thesis
    proof (cases "mapE f xs")
      case (Inl e)
      with fx Cons.IH show ?thesis by (cases ys) auto
    next
      case (Inr zs)
      with fx Cons.IH[symmetric] show ?thesis by (cases ys) auto
    qed
  qed
qed

lemma mapE_length: "mapE f xs = Inr ys \<Longrightarrow> length ys = length xs"
  by (simp add: mapE_Inr list_all2_lengthD)









lemma calib_files_loop:
  "foldE (\<lambda>filename path. Inr (AList.update device (g filename) path)) fns path =
     Inr (if fns = [] then path else AList.update device (g (last fns)) path)"
  by (induction fns arbitrary: path) auto

lemma calib_sessions:
  "foldE (\<lambda>ts path.
       let calib_path = path_join base_path [device, ts, ''calib''] in
       bindE (listdir calib_path) (\<lambda>filenames.
         foldE (\<lambda>filename path. Inr (AList.update device (path_join calib_path [filename]) path))
           (sort filenames) path)) tss path =
     bindE (mapE (session_files listdir base_path ''calib'' device) tss) (\<lambda>ls.
       Inr (if concat ls = [] then path else AList.update device (last (concat ls)) path))"
proof (induction tss arbitrary: path)
  case Nil
  show ?case by simp
next
  case (Cons ts tss)
  show ?case
  proof (cases "listdir (path_join base_path [device, ts, ''calib''])")
    case (Inl e)
    then show ?thesis by (simp add: session_files_def)
  next
    case (Inr fns)
    let ?g = "\<lambda>filename. path_join (path_join base_path [device, ts, ''calib'']) [filename]"
    let ?fs = "map ?g (sort fns)"
    define p1 where "p1 = (if sort fns = [] then path else AList.update device (?g (last (sort fns))) path)"
    have sf: "session_files listdir base_path ''calib'' device ts = Inr ?fs"
      using Inr by (simp add: session_files_def)
    have inner: "foldE (\<lambda>filename path. Inr (AList.update device (?g filename) path)) (sort fns) path = Inr p1"
      unfolding p1_def by (rule calib_files_loop)
    have step: "foldE (\<lambda>ts path.
       let calib_path = path_join base_path [device, ts, ''calib''] in
       bindE (listdir calib_path) (\<lambda>filenames.
         foldE (\<lambda>filename path. Inr (AList.update device (path_join calib_path [filename]) path))
           (sort filenames) path)) (ts # tss) path =
       bindE (mapE (session_files listdir base_path ''calib'' device) tss) (\<lambda>ls.
         Inr (if concat ls = [] then p1 else AList.update device (last (concat ls)) p1))"
      by (simp only: foldE.simps Let_def Inr bindE.simps inner sum.case Cons.IH[of p1, unfolded Let_def])
    show ?thesis
    proof (cases "mapE (session_files listdir base_path ''calib'' device) tss")
      case (Inl e)
      with step sf show ?thesis by simp
    next
      case r: (Inr ls)
      have "(if concat ls = [] then p1 else AList.update device (last (concat ls)) p1) =
            (if ?fs @ concat ls = [] then path else AList.update device (last (?fs @ concat ls)) path)"
        by (auto simp: p1_def last_map)
      with step sf r show ?thesis by simp
    qed
  qed
qed

lemma calib_device:
  "bindE (listdir (path_join base_path [device])) (\<lambda>tss.
     foldE (\<lambda>ts path.
       let calib_path = path_join base_path [device, ts, ''calib''] in
       bindE (listdir calib_path) (\<lambda>filenames.
         foldE (\<lambda>filename path. Inr (AList.update device (path_join calib_path [filename]) path))
           (sort filenames) path)) (sort tss) path) =
   bindE (device_files listdir base_path ''calib'' device) (\<lambda>fs.
     Inr (if fs = [] then path else AList.update device (last fs) path))"
proof (cases "listdir (path_join base_path [device])")
  case (Inl e)
  then show ?thesis by (simp add: device_files_def)
next
  case (Inr tss)
  then show ?thesis
    using calib_sessions[of base_path device listdir "sort tss" path]
    by (cases "mapE (session_files listdir base_path ''calib'' device) (sort tss)")
       (simp_all add: device_files_def)
qed

lemma calib_devices:
  "foldE (\<lambda>device path. bindE (device_files listdir base_path ''calib'' device)
       (\<lambda>fs. Inr (if fs = [] then path else AList.update device (last fs) path))) devs path =
   bindE (mapE (device_files listdir base_path ''calib'') devs) (\<lambda>fss.
     Inr (fold (\<lambda>(d, fs) p. if fs = [] then p else AList.update d (last fs) p) (zip devs fss) path))"
proof (induction devs arbitrary: path)
  case Nil
  show ?case by simp
next
  case (Cons d devs)
  show ?case
  proof (cases "device_files listdir base_path ''calib'' d")
    case (Inl e)
    then show ?thesis by simp
  next
    case (Inr fs)
    then show ?thesis
      using Cons.IH[of "if fs = [] then path else AList.update d (last fs) path"]
      by (cases "mapE (device_files listdir base_path ''calib'') devs") simp_all
  qed
qed

lemma fold_calib_fresh:
  "distinct (map fst path @ devs) \<Longrightarrow> length fss = length devs \<Longrightarrow>
   fold (\<lambda>(d, fs) p. if fs = [] then p else AList.update d (last fs) p) (zip devs fss) path =
     path @ map (\<lambda>(d, fs). (d, last fs)) (filter (\<lambda>(d, fs). fs \<noteq> []) (zip devs fss))"
proof (induction devs arbitrary: path fss)
  case Nil
  then show ?case by simp
next
  case (Cons d devs)
  from Cons.prems(2) obtain fs fss' where fss: "fss = fs # fss'" "length fss' = length devs"
    by (cases fss) auto
  from Cons.prems(1) have d: "d \<notin> fst ` set path" by auto
  have upd: "AList.update d x path = path @ [(d, x)]" for x
    using d by (induction path) auto
  show ?case
  proof (cases "fs = []")
    case True
    have "distinct (map fst path @ devs)" using Cons.prems(1) by auto
    from Cons.IH[OF this fss(2)] True fss show ?thesis by simp
  next
    case False
    have "distinct (map fst (path @ [(d, last fs)]) @ devs)"
      using Cons.prems(1) by auto
    from Cons.IH[OF this fss(2)] upd False fss show ?thesis by simp
  qed
qed

lemma get_calib_char:
  assumes "listdir base_path = Inr devs" "distinct devs"
  shows "get_calib listdir base_path =
     bindE (mapE (device_files listdir base_path ''calib'') (sort devs)) (\<lambda>fss.
       Inr (map (\<lambda>(d, fs). (d, last fs)) (filter (\<lambda>(d, fs). fs \<noteq> []) (zip (sort devs) fss))))"
proof -
  have "get_calib listdir base_path =
     bindE (mapE (device_files listdir base_path ''calib'') (sort devs)) (\<lambda>fss.
       Inr (fold (\<lambda>(d, fs) p. if fs = [] then p else AList.update d (last fs) p) (zip (sort devs) fss) []))"
    by (simp only: get_calib_def assms(1) bindE.simps calib_device calib_devices)
  moreover have "fold (\<lambda>(d, fs) p. if fs = [] then p else AList.update d (last fs) p) (zip (sort devs) fss) [] =
      map (\<lambda>(d, fs). (d, last fs)) (filter (\<lambda>(d, fs). fs \<noteq> []) (zip (sort devs) fss))"
    if "mapE (device_files listdir base_path ''calib'') (sort devs) = Inr fss" for fss
    using fold_calib_fresh[of "[]" "sort devs" fss] mapE_length[OF that] assms(2) by simp
  ultimately show ?thesis
    by (cases "mapE (device_files listdir base_path ''calib'') (sort devs)") simp_all
qed

lemma map_of_zip_filter:
  "distinct ds \<Longrightarrow> length fss = length ds \<Longrightarrow> k < length ds \<Longrightarrow>
   map_of (map (\<lambda>(d, fs). (d, h fs)) (filter (\<lambda>(d, fs). P fs) (zip ds fss))) (ds ! k) =
     (if P (fss ! k) then Some (h (fss ! k)) else None)"
proof (induction ds arbitrary: fss k)
  case Nil
  then show ?case by simp
next
  case (Cons d ds)
  from Cons.prems(2) obtain fs fss' where fss: "fss = fs # fss'" "length fss' = length ds"
    by (cases fss) auto
  show ?case
  proof (cases k)
    case 0
    have "map_of (map (\<lambda>(d, fs). (d, h fs)) (filter (\<lambda>(d, fs). P fs) (zip ds fss'))) d = None"
      using Cons.prems(1) by (auto simp: map_of_eq_None_iff dest!: set_zip_leftD)
    with 0 fss show ?thesis by simp
  next
    case (Suc k')
    with Cons.prems have k': "k' < length ds" and dk: "ds ! k' \<noteq> d" and dist: "distinct ds"
      by auto
    from Cons.IH[OF dist fss(2) k'] Suc fss dk show ?thesis by auto
  qed
qed

lemma two_calib_listing: "fs_two_calib PATH = Inr [''A'']"
  by code_simp

lemma two_calib_result: "get_calib fs_two_calib PATH = Inr [(''A'', ''/tmp/testing/A/s2/calib/c2.json'')]"
  by code_simp

lemma two_calib_files:
  "device_files fs_two_calib PATH ''calib'' ''A'' =
     Inr [''/tmp/testing/A/s1/calib/c1.json'', ''/tmp/testing/A/s2/calib/c2.json'']"
  by code_simp

subsection \<open>The tuples of the zip\<close>






subsection \<open>Building the index\<close>



















lemma scenario_listing:
  "get_filepaths fs_scenario PATH ''color'' = Inr scenario_color_files"
  "get_filepaths fs_scenario PATH ''depth'' = Inr scenario_depth_files"
  "get_calib fs_scenario PATH = Inr scenario_calib"
  by code_simp+







subsection \<open>When the listing succeeds\<close>















section \<open>The claims\<close>

subsection \<open>C6: the new watermark\<close>

text \<open>
  C6. At every alignment step the new watermark is the maximum of the timestamps chosen
  at that step, over all devices and both stream kinds: for the \<open>i\<close>-th bundle of a
  session, \<open>new_watermark\<close> is the maximum of its colour and depth selections, which
  hold one timestamp per device, and it is the value \<open>ts_max\<close> has afterwards (the
  watermark of the next bundle, or the final \<open>ts_max\<close> after the last one).
\<close>

theorem new_watermark_is_max:
  assumes "session_loop io n s = (bs, s', r)" and "i < length bs"
  shows "new_watermark (bs ! i) = Max (set (color_sel (bs ! i)) \<union> set (depth_sel (bs ! i))) \<and>
         length (color_sel (bs ! i)) = length (dev_list s) \<and>
         length (depth_sel (bs ! i)) = length (dev_list s) \<and>
         (if Suc i < length bs then watermark (bs ! Suc i) else ts_max s') = new_watermark (bs ! i)"
proof -
  note t = session_loop_trace[OF assms(1)]
  from t assms(2) have p: "produced s (bs ! i)" by auto
  have "(if Suc i < length bs then watermark (bs ! Suc i) else ts_max s') = new_watermark (bs ! i)"
  proof (cases "Suc i < length bs")
    case True
    with t show ?thesis by simp
  next
    case False
    with assms(2) have "bs ! i = last bs" "bs \<noteq> []"
      by (auto dest: nth_is_last)
    with t False show ?thesis by simp
  qed
  with produced_facts[OF p] show ?thesis by simp
qed

theorem new_watermark_is_max_witness:
  "session_loop io_ok 3 scenario_session =
     ([scenario_bundle], scenario_session\<lparr>ts_max := 250\<rparr>, Some StopIteration) \<and>
   new_watermark scenario_bundle =
     Max (set (color_sel scenario_bundle) \<union> set (depth_sel scenario_bundle)) \<and>
   new_watermark scenario_bundle = 250 \<and>
   length (color_sel scenario_bundle) = length (dev_list scenario_session) \<and>
   ts_max (scenario_session\<lparr>ts_max := 250\<rparr>) = new_watermark scenario_bundle"
proof -
  have i: "0 < length [scenario_bundle]" by simp
  from new_watermark_is_max[OF scenario_run i] scenario_run show ?thesis
    by (simp add: scenario_bundle_def)
qed

subsection \<open>C4: the watermark never decreases\<close>



subsection \<open>C1: which timestamp a step selects\<close>






subsection \<open>C2: the counters\<close>

text \<open>
  C2 asks that no locator be chosen by two steps, the cursor moving past each chosen
  locator. The loop slices each sequence from \<open>counter_color[idx]\<close> and
  \<open>counter_depth[idx]\<close> but never assigns them: with colour and depth files 100 and
  200, the first two steps both select timestamp 100 for colour and for depth, and both
  counters are still 0.
\<close>

theorem locator_chosen_twice:
  "main_start fs_repeat = Inr repeat_session \<and>
   session_loop io_ok 2 repeat_session = ([bundle_100, bundle_100], repeat_session, None) \<and>
   counter_color repeat_session = [0] \<and> counter_depth repeat_session = [0]"
proof -
  have "session_loop io_ok 2 repeat_session = ([bundle_100, bundle_100], repeat_session, None)"
    by code_simp
  with repeat_start show ?thesis by (simp add: repeat_session_def)
qed

subsection \<open>C3: termination\<close>

text \<open>
  C3 asks that a session end after at most as many steps as there are locators. With
  one colour file and one depth file, both of timestamp 100, every step selects the
  same pair and leaves the state as it was: after any number \<open>n\<close> of iterations the
  loop has produced \<open>n\<close> bundles and is still running, for instance after 3 iterations
  over 2 locators.
\<close>

theorem session_never_ends:
  "main_start fs_single = Inr single_session \<and>
   (\<forall>n. session_loop io_ok n single_session = (replicate n bundle_100, single_session, None)) \<and>
   session_loop io_ok 3 single_session = ([bundle_100, bundle_100, bundle_100], single_session, None)"
proof -
  have "session_loop io_ok 3 single_session = (replicate 3 bundle_100, single_session, None)"
    by (rule single_loops)
  then have "session_loop io_ok 3 single_session = ([bundle_100, bundle_100, bundle_100], single_session, None)"
    by (simp add: numeral_3_eq_3)
  with single_start single_loops show ?thesis by simp
qed

subsection \<open>C10: the exit status\<close>

text \<open>
  C10. Whenever the loop raises an exception \<open>e\<close>, the exhaustion of a scan included,
  the script prints \<open>e\<close> and ends with exit status 0: the handler's \<open>exit(1)\<close> alone
  would give status 1, and the \<open>exit(0)\<close> of the \<open>finally\<close> block replaces it.
\<close>

theorem loop_exception_exits_zero:
  assumes "session_loop io n s = (bs, s', Some e)"
  shows "main_loop io n s = Some ([e], 0) \<and>
         try_except_finally (Raised (Exception e)) (\<lambda>e. ([e], py_exit 1)) (py_exit 0) =
           ([e], Raised (SystemExit 0)) \<and>
         try_except_finally (Raised (Exception e)) (\<lambda>e. ([e], py_exit 1)) Completed =
           ([e], Raised (SystemExit 1))"
  using assms
  by (simp add: main_loop_def guarded_def try_except_finally_def py_exit_def)

theorem loop_exception_exits_zero_witness:
  "session_loop io_ok 3 scenario_session =
     ([scenario_bundle], scenario_session\<lparr>ts_max := 250\<rparr>, Some StopIteration) \<and>
   main_loop io_ok 3 scenario_session = Some ([StopIteration], 0)"
  using loop_exception_exits_zero[OF scenario_run] scenario_run by simp

subsection \<open>C8: the calibration file of a device\<close>

text \<open>
  C8, as the code has it. \<open>get_calib\<close> keeps at most one calibration file per listed
  device: a device without any calibration file gets no entry, and a device with
  several gets the last of them in the order sorted session names, then sorted file
  names (each later file overwrites the entry of the earlier ones).
\<close>

theorem calibration_is_last:
  assumes "listdir base_path = Inr devs" and "distinct devs"
    and "get_calib listdir base_path = Inr path"
  shows "distinct (map fst path) \<and> set (map fst path) \<subseteq> set devs \<and>
         (\<forall>d\<in>set devs. \<exists>fs. device_files listdir base_path ''calib'' d = Inr fs \<and>
            map_of path d = (if fs = [] then None else Some (last fs)))"
proof -
  from assms(3) get_calib_char[of listdir base_path devs, OF assms(1,2)] obtain fss where
    fss: "mapE (device_files listdir base_path ''calib'') (sort devs) = Inr fss" and
    path: "path = map (\<lambda>(d, fs). (d, last fs)) (filter (\<lambda>(d, fs). fs \<noteq> []) (zip (sort devs) fss))"
    by (auto simp: bindE_Inr_iff)
  have len: "length fss = length (sort devs)" using mapE_length[OF fss] .
  have dsort: "distinct (sort devs)" using assms(2) by simp
  have keys: "map fst path = map fst (filter (\<lambda>(d, fs). fs \<noteq> []) (zip (sort devs) fss))"
    by (simp add: path case_prod_unfold comp_def)
  have "distinct (map fst (zip (sort devs) fss))"
    using dsort len by simp
  then have d1: "distinct (map fst path)"
    unfolding keys by (rule distinct_map_filter)
  have d2: "set (map fst path) \<subseteq> set devs"
    unfolding keys by (auto dest!: set_zip_leftD)
  have d3: "\<exists>fs. device_files listdir base_path ''calib'' d = Inr fs \<and>
            map_of path d = (if fs = [] then None else Some (last fs))" if "d \<in> set devs" for d
  proof -
    from that have "d \<in> set (sort devs)" by simp
    then obtain k where k: "k < length (sort devs)" "sort devs ! k = d"
      unfolding in_set_conv_nth by blast
    from fss k have "device_files listdir base_path ''calib'' d = Inr (fss ! k)"
      by (auto simp: mapE_Inr list_all2_conv_all_nth)
    moreover have "map_of path d = (if fss ! k \<noteq> [] then Some (last (fss ! k)) else None)"
      using map_of_zip_filter[OF dsort len k(1), of last "\<lambda>fs. fs \<noteq> []"] k(2)
      by (simp add: path)
    ultimately show ?thesis by auto
  qed
  from d1 d2 d3 show ?thesis by blast
qed


theorem calibration_is_last_witness:
  "fs_two_calib PATH = Inr [''A''] \<and> distinct [''A''] \<and>
   get_calib fs_two_calib PATH = Inr [(''A'', ''/tmp/testing/A/s2/calib/c2.json'')] \<and>
   device_files fs_two_calib PATH ''calib'' ''A'' =
     Inr [''/tmp/testing/A/s1/calib/c1.json'', ''/tmp/testing/A/s2/calib/c2.json''] \<and>
   map_of [(''A'', ''/tmp/testing/A/s2/calib/c2.json'')] ''A'' =
     Some (last [''/tmp/testing/A/s1/calib/c1.json'', ''/tmp/testing/A/s2/calib/c2.json''])"
proof -
  have d: "distinct [''A'']" by simp
  from calibration_is_last[of fs_two_calib PATH "[''A'']", OF two_calib_listing d two_calib_result]
  have "\<exists>fs. device_files fs_two_calib PATH ''calib'' ''A'' = Inr fs \<and>
      map_of [(''A'', ''/tmp/testing/A/s2/calib/c2.json'')] ''A'' = (if fs = [] then None else Some (last fs))"
    by simp
  with two_calib_files two_calib_listing two_calib_result show ?thesis by simp
qed

text \<open>
  C8 as stated fails: with sessions s1 and s2 listed in that order, each holding one
  calibration file, the file selected is the one of s2, not the first one found.
\<close>

theorem calibration_not_first_counterexample:
  "fs_two_calib ''/tmp/testing/A'' = Inr [''s1'', ''s2''] \<and>
   fs_two_calib ''/tmp/testing/A/s1/calib'' = Inr [''c1.json''] \<and>
   get_calib fs_two_calib PATH = Inr [(''A'', ''/tmp/testing/A/s2/calib/c2.json'')] \<and>
   ''/tmp/testing/A/s2/calib/c2.json'' \<noteq> ''/tmp/testing/A/s1/calib/c1.json''"
proof -
  have "fs_two_calib ''/tmp/testing/A'' = Inr [''s1'', ''s2'']" by code_simp
  moreover have "fs_two_calib ''/tmp/testing/A/s1/calib'' = Inr [''c1.json'']" by code_simp
  ultimately show ?thesis using two_calib_result by simp
qed

subsection \<open>C5: the order of a stream's sequence\<close>

text \<open>
  C5 asks for each sequence in ascending order of the integer timestamps. The code
  sorts the file names as strings (\<open>sorted(os.listdir(...))\<close>, lines 29-31): with the
  files 9.bin and 10.bin the paths come out as 10.bin, 9.bin, and the device's colour
  sequence in the index and in the session is 10, 9, which is not ascending.
\<close>

theorem index_order_is_lexicographic:
  "get_filepaths fs_digits PATH ''color'' =
     Inr [(''A'', [''/tmp/testing/A/s1/color/10.bin'', ''/tmp/testing/A/s1/color/9.bin''])] \<and>
   map_sum id (\<lambda>(color_dict', depth_dict', num_data, num_dev). map (\<lambda>(k, v). (k, map fst v)) color_dict')
     (get_filepaths_with_timestamps fs_digits) = Inr [(''A'', [10, 9])] \<and>
   map_sum id dev_color_ts (main_start fs_digits) = Inr [(''A'', [10, 9])] \<and>
   \<not> sorted [10, 9 :: int]"
proof -
  have "get_filepaths fs_digits PATH ''color'' =
     Inr [(''A'', [''/tmp/testing/A/s1/color/10.bin'', ''/tmp/testing/A/s1/color/9.bin''])]"
    by code_simp
  moreover have "map_sum id (\<lambda>(color_dict', depth_dict', num_data, num_dev). map (\<lambda>(k, v). (k, map fst v)) color_dict')
     (get_filepaths_with_timestamps fs_digits) = Inr [(''A'', [10, 9])]"
    by code_simp
  moreover have "map_sum id dev_color_ts (main_start fs_digits) = Inr [(''A'', [10, 9])]"
    by code_simp
  ultimately show ?thesis by simp
qed

subsection \<open>C9: unequal list lengths\<close>




subsection \<open>C7: when building the index fails\<close>





end
